theory Spec2Isabelle
  imports Complex_Main "HOL-Library.Option_ord" "HOL-Library.Multiset"
begin

section \<open>KaMela Finance: the ledger and obligation engine\<close>

text \<open>
  The development embeds the SQLite-backed desktop program \<^verbatim>\<open>kamela_finance.py\<close> (class
  \<^verbatim>\<open>KamelaFinance\<close>) and the payment handler of the Google-Sheets front-end
  \<^verbatim>\<open>app.py\<close>.

  Conventions of the embedding.
  \<^item> Amounts are the \<^verbatim>\<open>REAL\<close> columns and Python floats of the source; they are idealised
    as \<^typ>\<open>real\<close> (no rounding, no NaN, no infinities).
  \<^item> Dates are the \<^verbatim>\<open>'YYYY-MM-DD'\<close> strings produced by \<^verbatim>\<open>DateEntry\<close> and
    \<^verbatim>\<open>strftime\<close>. On such strings the textual order of SQLite is the calendar order and
    \<^verbatim>\<open>julianday(a) - julianday(b)\<close> is the number of days between them, so a date is
    modelled by its day number.
  \<^item> A nullable column is an \<^typ>\<open>'a option\<close>; \<^term>\<open>None\<close> is SQL \<^verbatim>\<open>NULL\<close>.
  \<^item> A table is the list of its rows in insertion order; an \<^verbatim>\<open>AUTOINCREMENT\<close> key is
    drawn from a per-table counter.
  \<^item> Text typed into an amount field reaches the code through \<^verbatim>\<open>float(...)\<close>, which
    raises \<^verbatim>\<open>ValueError\<close> on text that is not a number: such a field is a
    \<^typ>\<open>real option\<close>, \<^term>\<open>None\<close> standing for text that \<^verbatim>\<open>float\<close> rejects.
\<close>

subsection \<open>Tables (\<^verbatim>\<open>init_database\<close>)\<close>

type_synonym date = int

datatype trans_type = Revenu | Depense

datatype debt_type = Dette | Pret

datatype debt_status = Actif | Rembourse | En_retard

record transaction =
  t_id :: nat
  t_type :: trans_type
  t_category :: string
  t_amount :: real
  t_description :: string
  t_date :: date

record debt =
  d_id :: nat
  d_type :: debt_type
  d_person_name :: string
  d_phone :: string
  d_amount :: real
  d_amount_paid :: real
  d_interest_rate :: real
  d_start_date :: date
  d_due_date :: "date option"
  d_status :: debt_status
  d_description :: string

record repayment =
  r_id :: nat
  r_debt_id :: nat
  r_amount :: real
  r_date :: date
  r_notes :: string

record contact =
  c_id :: nat
  c_name :: string
  c_phone :: string
  c_email :: "string option"
  c_type :: string
  c_notes :: string

record db =
  transactions :: "transaction list"
  debts :: "debt list"
  repayments :: "repayment list"
  contacts :: "contact list"
  seq_transactions :: nat
  seq_debts :: nat
  seq_repayments :: nat
  seq_contacts :: nat

definition init_database :: db where
  "init_database =
     \<lparr>transactions = [], debts = [], repayments = [], contacts = [],
      seq_transactions = 0, seq_debts = 0, seq_repayments = 0, seq_contacts = 0\<rparr>"

datatype error = ValueError | TypeError

datatype outcome = Ok | Err error

subsection \<open>Adding and deleting transactions\<close>

text \<open>\<^verbatim>\<open>add_transaction_dialog.save\<close>: the amount must parse and be positive.\<close>

definition add_transaction_save ::
  "trans_type \<Rightarrow> string \<Rightarrow> real option \<Rightarrow> string \<Rightarrow> date \<Rightarrow> db \<Rightarrow> outcome \<times> db" where
  "add_transaction_save ty cat amount_var desc dt s =
     (case amount_var of
        None \<Rightarrow> (Err ValueError, s)
      | Some amount \<Rightarrow>
          if amount \<le> 0 then (Err ValueError, s)
          else (Ok, s\<lparr>transactions := transactions s @
                        [\<lparr>t_id = seq_transactions s + 1, t_type = ty, t_category = cat,
                          t_amount = amount, t_description = desc, t_date = dt\<rparr>],
                      seq_transactions := seq_transactions s + 1\<rparr>))"

text \<open>\<^verbatim>\<open>on_transaction_click\<close>: \<^verbatim>\<open>DELETE FROM transactions WHERE id = ?\<close>.\<close>

definition on_transaction_click :: "nat \<Rightarrow> db \<Rightarrow> db" where
  "on_transaction_click trans_id s =
     s\<lparr>transactions := filter (\<lambda>t. t_id t \<noteq> trans_id) (transactions s)\<rparr>"

subsection \<open>Opening a debt or a loan (\<^verbatim>\<open>add_debt_dialog.save\<close>)\<close>

text \<open>
  The row is inserted with the column defaults \<^verbatim>\<open>amount_paid = 0\<close> and
  \<^verbatim>\<open>status = 'actif'\<close>; both dates come from \<^verbatim>\<open>DateEntry\<close> fields. The only
  failure is \<^verbatim>\<open>float\<close> rejecting the amount or the rate.
\<close>

definition debt_type_str :: "debt_type \<Rightarrow> string" where
  "debt_type_str ty = (case ty of Dette \<Rightarrow> ''dette'' | Pret \<Rightarrow> ''pret'')"

text \<open>The note \<^verbatim>\<open>f"Ajout\'e via {type}"\<close>; the accented letter is its two UTF-8 bytes.\<close>

definition ajoute_via :: "debt_type \<Rightarrow> string" where
  "ajoute_via ty = ''Ajout'' @ [CHR 0xC3, CHR 0xA9] @ '' via '' @ debt_type_str ty"

definition add_debt_save ::
  "debt_type \<Rightarrow> string \<Rightarrow> string \<Rightarrow> real option \<Rightarrow> real option \<Rightarrow> date \<Rightarrow> date \<Rightarrow>
   string \<Rightarrow> db \<Rightarrow> outcome \<times> db" where
  "add_debt_save ty name_var phone_var amount_var rate_var start due desc s =
     (case amount_var of
        None \<Rightarrow> (Err ValueError, s)
      | Some amount \<Rightarrow>
         (case rate_var of
            None \<Rightarrow> (Err ValueError, s)
          | Some rate \<Rightarrow>
              let s1 = s\<lparr>debts := debts s @
                            [\<lparr>d_id = seq_debts s + 1, d_type = ty, d_person_name = name_var,
                              d_phone = phone_var, d_amount = amount, d_amount_paid = 0,
                              d_interest_rate = rate, d_start_date = start,
                              d_due_date = Some due,
                              d_status = Actif, d_description = desc\<rparr>],
                          seq_debts := seq_debts s + 1\<rparr>;
                  found = find (\<lambda>c. c_phone c = phone_var) (contacts s1)
              in if found = None \<and> phone_var \<noteq> []
                 then let contact_type = (if ty = Pret then ''debiteur'' else ''creancier'')
                      in (Ok, s1\<lparr>contacts := contacts s1 @
                                   [\<lparr>c_id = seq_contacts s1 + 1, c_name = name_var,
                                     c_phone = phone_var, c_email = None,
                                     c_type = contact_type, c_notes = ajoute_via ty\<rparr>],
                                 seq_contacts := seq_contacts s1 + 1\<rparr>)
                 else (Ok, s1)))"

text \<open>\<^verbatim>\<open>add_contact_dialog.save\<close> stores what the form holds, unchecked.\<close>

definition add_contact_save :: "string \<Rightarrow> string \<Rightarrow> string \<Rightarrow> string \<Rightarrow> string \<Rightarrow> db \<Rightarrow> db" where
  "add_contact_save name_var phone_var email_var type_var notes_var s =
     s\<lparr>contacts := contacts s @
          [\<lparr>c_id = seq_contacts s + 1, c_name = name_var, c_phone = phone_var,
            c_email = Some email_var, c_type = type_var, c_notes = notes_var\<rparr>],
       seq_contacts := seq_contacts s + 1\<rparr>"

subsection \<open>Repayments (\<^verbatim>\<open>show_repayment_dialog\<close>)\<close>

text \<open>
  Opening the dialog reads the debt once; unpacking the row of an unknown id raises
  \<^verbatim>\<open>TypeError\<close>. The values read are the ones \<^verbatim>\<open>save\<close> later works with.
\<close>

record repayment_dialog =
  dlg_debt_id :: nat
  dlg_person :: string
  dlg_total :: real
  dlg_paid :: real
  dlg_remaining :: real

definition show_repayment_dialog :: "nat \<Rightarrow> db \<Rightarrow> error + repayment_dialog" where
  "show_repayment_dialog debt_id s =
     (case find (\<lambda>d. d_id d = debt_id) (debts s) of
        None \<Rightarrow> Inl TypeError
      | Some d \<Rightarrow>
          Inr \<lparr>dlg_debt_id = debt_id, dlg_person = d_person_name d, dlg_total = d_amount d,
               dlg_paid = d_amount_paid d, dlg_remaining = d_amount d - d_amount_paid d\<rparr>)"

text \<open>\<^verbatim>\<open>UPDATE debts SET amount_paid = ?, status = ? WHERE id = ?\<close>\<close>

definition update_debt :: "real \<Rightarrow> debt_status \<Rightarrow> nat \<Rightarrow> debt list \<Rightarrow> debt list" where
  "update_debt new_paid new_status debt_id ds =
     map (\<lambda>d. if d_id d = debt_id
               then d\<lparr>d_amount_paid := new_paid, d_status := new_status\<rparr> else d) ds"

text \<open>The note of every repayment row is the fixed text \<^verbatim>\<open>"Remboursement partiel"\<close>.\<close>

definition repayment_save :: "repayment_dialog \<Rightarrow> real option \<Rightarrow> date \<Rightarrow> db \<Rightarrow> outcome \<times> db" where
  "repayment_save dlg amount_var dt s =
     (case amount_var of
        None \<Rightarrow> (Err ValueError, s)
      | Some amount \<Rightarrow>
          if amount \<le> 0 \<or> amount > dlg_remaining dlg then (Err ValueError, s)
          else
            let s1 = s\<lparr>repayments := repayments s @
                          [\<lparr>r_id = seq_repayments s + 1, r_debt_id = dlg_debt_id dlg,
                            r_amount = amount, r_date = dt,
                            r_notes = ''Remboursement partiel''\<rparr>],
                        seq_repayments := seq_repayments s + 1\<rparr>;
                new_paid = dlg_paid dlg + amount;
                new_status = (if new_paid \<ge> dlg_total dlg then Rembourse else Actif)
            in (Ok, s1\<lparr>debts := update_debt new_paid new_status (dlg_debt_id dlg) (debts s1)\<rparr>))"

text \<open>
  The dialog is modal and is destroyed by a successful \<^verbatim>\<open>save\<close>, and a rejected
  \<^verbatim>\<open>save\<close> writes nothing: every \<^verbatim>\<open>save\<close> therefore runs on the store the dialog was
  opened on. One repayment request is the dialog followed by its \<^verbatim>\<open>save\<close>.
\<close>

definition apply_repayment :: "nat \<Rightarrow> real option \<Rightarrow> date \<Rightarrow> db \<Rightarrow> outcome \<times> db" where
  "apply_repayment debt_id amount_var dt s =
     (case show_repayment_dialog debt_id s of
        Inl e \<Rightarrow> (Err e, s)
      | Inr dlg \<Rightarrow> repayment_save dlg amount_var dt s)"

subsection \<open>Statistics and alerts\<close>

record stats =
  balance :: real
  monthly_income :: real
  monthly_expense :: real
  active_debts :: nat

text \<open>
  \<^verbatim>\<open>calculate_stats\<close>. The predicate \<open>current_month\<close> says whether a date lies in the
  month of \<^verbatim>\<open>datetime.now()\<close> (the test \<^verbatim>\<open>strftime('%Y-%m', date) = ?\<close>).
\<close>

definition calculate_stats :: "(date \<Rightarrow> bool) \<Rightarrow> db \<Rightarrow> stats" where
  "calculate_stats current_month s =
     \<lparr>balance = sum_list (map (\<lambda>t. if t_type t = Revenu then t_amount t else - t_amount t)
                              (transactions s)),
      monthly_income = sum_list (map t_amount
         (filter (\<lambda>t. t_type t = Revenu \<and> current_month (t_date t)) (transactions s))),
      monthly_expense = sum_list (map t_amount
         (filter (\<lambda>t. t_type t = Depense \<and> current_month (t_date t)) (transactions s))),
      active_debts = length (filter (\<lambda>d. d_status d = Actif \<or> d_status d = En_retard) (debts s))\<rparr>"

datatype alert = Solde_negatif real | Dettes_en_retard nat

text \<open>
  \<^verbatim>\<open>load_alerts\<close> only reads; it is given the store and hands it back. A comparison with
  \<^verbatim>\<open>NULL\<close> is not true in SQL, so a debt without due date is not counted.
\<close>

definition late :: "date \<Rightarrow> debt \<Rightarrow> bool" where
  "late today d =
     ((case d_due_date d of None \<Rightarrow> False | Some due \<Rightarrow> due < today) \<and> d_status d = Actif)"

definition load_alerts :: "(date \<Rightarrow> bool) \<Rightarrow> date \<Rightarrow> db \<Rightarrow> alert list \<times> db" where
  "load_alerts current_month today s =
     (let st = calculate_stats current_month s;
          alerts = (if balance st < 0 then [Solde_negatif (balance st)] else []);
          late_debts = length (filter (late today) (debts s));
          alerts = (if late_debts > 0 then alerts @ [Dettes_en_retard late_debts] else alerts)
      in (alerts, s))"

subsection \<open>Listings\<close>


datatype tag = Urgent | Warning | Normal

text \<open>
  \<^verbatim>\<open>load_all_deadlines\<close>: the rows \<^verbatim>\<open>WHERE due_date >= ? AND status = 'actif'
  ORDER BY due_date ASC\<close>, each with \<^verbatim>\<open>days_left = julianday(due_date) - julianday(?)\<close>,
  then \<^verbatim>\<open>days_int = int(days) if days else 0\<close> and the tag.
\<close>

definition upcoming :: "date \<Rightarrow> debt \<Rightarrow> bool" where
  "upcoming today d =
     ((case d_due_date d of None \<Rightarrow> False | Some due \<Rightarrow> due \<ge> today) \<and> d_status d = Actif)"

definition days_left :: "date \<Rightarrow> debt \<Rightarrow> int option" where
  "days_left today d = (case d_due_date d of None \<Rightarrow> None | Some due \<Rightarrow> Some (due - today))"

definition deadline_row :: "date \<Rightarrow> debt \<Rightarrow> debt \<times> int \<times> tag" where
  "deadline_row today d =
     (let days = days_left today d;
          days_int = (case days of None \<Rightarrow> 0 | Some n \<Rightarrow> if n \<noteq> 0 then n else 0);
          tg = (if days_int \<le> 3 then Urgent else if days_int \<le> 7 then Warning else Normal)
      in (d, days_int, tg))"

definition load_all_deadlines :: "date \<Rightarrow> db \<Rightarrow> (debt \<times> int \<times> tag) list" where
  "load_all_deadlines today s =
     map (deadline_row today) (sort_key d_due_date (filter (upcoming today) (debts s)))"

subsection \<open>Requests and reachable stores\<close>

text \<open>
  The writes a user can trigger on the desktop store. Reading (statistics, alerts,
  listings) leaves the store as it is.
\<close>

datatype request =
    Add_transaction trans_type string "real option" string date
  | Delete_transaction nat
  | Add_debt debt_type string string "real option" "real option" date date string
  | Add_contact string string string string string
  | Repay nat "real option" date

fun perform :: "request \<Rightarrow> db \<Rightarrow> db" where
  "perform (Add_transaction ty cat a desc dt) s = snd (add_transaction_save ty cat a desc dt s)"
| "perform (Delete_transaction i) s = on_transaction_click i s"
| "perform (Add_debt ty nm ph a r st du desc) s = snd (add_debt_save ty nm ph a r st du desc s)"
| "perform (Add_contact nm ph em ty nt) s = add_contact_save nm ph em ty nt s"
| "perform (Repay i a dt) s = snd (apply_repayment i a dt s)"

inductive reachable :: "db \<Rightarrow> bool" where
  start: "reachable init_database"
| step: "reachable s \<Longrightarrow> reachable (perform rq s)"

text \<open>The total of the repayment rows of one debt.\<close>

definition repaid :: "nat \<Rightarrow> db \<Rightarrow> real" where
  "repaid debt_id s =
     sum_list (map r_amount (filter (\<lambda>r. r_debt_id r = debt_id) (repayments s)))"

text \<open>What holds of every store the requests can produce.\<close>

definition consistent :: "db \<Rightarrow> bool" where
  "consistent s \<longleftrightarrow>
     distinct (map d_id (debts s)) \<and>
     (\<forall>d \<in> set (debts s). d_id d \<le> seq_debts s) \<and>
     (\<forall>r \<in> set (repayments s). r_debt_id r \<le> seq_debts s) \<and>
     (\<forall>d \<in> set (debts s). repaid (d_id d) s = d_amount_paid d) \<and>
     (\<forall>d \<in> set (debts s). d_status d \<noteq> En_retard) \<and>
     (\<forall>d \<in> set (debts s). 0 < d_amount d \<longrightarrow>
         (d_status d = Rembourse \<longleftrightarrow> d_amount d \<le> d_amount_paid d))"

subsection \<open>The Google-Sheets front-end (\<^verbatim>\<open>app.py\<close>)\<close>

text \<open>
  The sheet \<^verbatim>\<open>Flux\<close> holds signed amounts (negative for a spending); the sheet
  \<^verbatim>\<open>Dettes\<close> holds the engagements. The two select boxes fix the values of
  \<^verbatim>\<open>Type\<close>, and \<^verbatim>\<open>Statut\<close> is written by the program only.
\<close>

datatype engagement = Dette_je_dois | Pret_on_me_doit

datatype statut = En_cours | Paye

record flux_row =
  f_date :: date
  f_description :: string
  f_montant :: real
  f_categorie :: string

record dette_row =
  e_contact :: string
  e_tel :: string
  e_type :: engagement
  e_montant :: real
  e_echeance :: date
  e_statut :: statut

record sheets =
  flux :: "flux_row list"
  dettes :: "dette_row list"

text \<open>\<^verbatim>\<open>solde = df_flux["Montant"].sum()\<close>\<close>

definition solde :: "sheets \<Rightarrow> real" where
  "solde sh = sum_list (map f_montant (flux sh))"


subsection \<open>Sample stores\<close>

text \<open>A store with one debt of 100 owed to Ali, due on day 30, opened on day 0.\<close>

definition ali_owed :: db where
  "ali_owed = perform (Add_debt Dette ''Ali'' [] (Some 100) (Some 0) 0 30 []) init_database"


text \<open>A store whose only debt was entered with principal 0.\<close>

definition zero_debt :: db where
  "zero_debt = perform (Add_debt Dette ''Ali'' [] (Some 0) (Some 0) 0 30 []) init_database"

section \<open>Properties\<close>

subsection \<open>Balance\<close>



subsection \<open>Consistency of reachable stores\<close>

lemma consistent_init: "consistent init_database"
  by (simp add: consistent_def init_database_def)

lemma consistent_add_transaction:
  "consistent s \<Longrightarrow> consistent (snd (add_transaction_save ty cat a desc dt s))"
  by (auto simp: consistent_def add_transaction_save_def repaid_def split: option.splits)

lemma consistent_delete: "consistent s \<Longrightarrow> consistent (on_transaction_click i s)"
  by (auto simp: consistent_def on_transaction_click_def repaid_def)

lemma consistent_add_contact: "consistent s \<Longrightarrow> consistent (add_contact_save nm ph em ty nt s)"
  by (auto simp: consistent_def add_contact_save_def repaid_def)

lemma find_debt_id: "find (\<lambda>d. d_id d = i) ds = Some d \<Longrightarrow> d \<in> set ds \<and> d_id d = i"
  by (induction ds) (auto split: if_splits)

lemma find_unique:
  "distinct (map d_id ds) \<Longrightarrow> find (\<lambda>d. d_id d = i) ds = Some d \<Longrightarrow> d' \<in> set ds \<Longrightarrow> d_id d' = i \<Longrightarrow> d' = d"
  by (induction ds) (auto split: if_splits simp: image_iff dest: find_debt_id)

lemma map_id_update_debt: "map d_id (update_debt p st i ds) = map d_id ds"
  by (induction ds) (auto simp: update_debt_def)

lemma consistent_add_debt:
  assumes "consistent s"
  shows "consistent (snd (add_debt_save ty nm ph a r st du desc s))"
proof (cases a)
  case None
  with assms show ?thesis by (simp add: add_debt_save_def)
next
  case (Some amount)
  show ?thesis
  proof (cases r)
    case None
    with Some assms show ?thesis by (simp add: add_debt_save_def)
  next
    case (Some rate)
    have fresh: "filter (\<lambda>r. r_debt_id r = Suc (seq_debts s)) (repayments s) = []"
      using assms by (auto simp: consistent_def filter_empty_conv)
    from assms \<open>a = Some amount\<close> Some fresh show ?thesis
      by (auto simp: consistent_def add_debt_save_def Let_def repaid_def)
  qed
qed

lemma consistent_repay:
  assumes "consistent s"
  shows "consistent (snd (apply_repayment i a dt s))"
proof (cases "find (\<lambda>d. d_id d = i) (debts s)")
  case None
  with assms show ?thesis by (simp add: apply_repayment_def show_repayment_dialog_def)
next
  case (Some d0)
  note found = Some
  have d0: "d0 \<in> set (debts s)" "d_id d0 = i" using find_debt_id[OF found] by auto
  have uniq: "\<And>d. d \<in> set (debts s) \<Longrightarrow> d_id d = i \<Longrightarrow> d = d0"
    using assms found find_unique by (auto simp: consistent_def)
  show ?thesis
  proof (cases a)
    case None
    with assms found show ?thesis
      by (simp add: apply_repayment_def show_repayment_dialog_def repayment_save_def)
  next
    case (Some amount)
    show ?thesis
    proof (cases "amount \<le> 0 \<or> amount > d_amount d0 - d_amount_paid d0")
      case True
      with assms found Some show ?thesis
        by (auto simp add: apply_repayment_def show_repayment_dialog_def repayment_save_def)
    next
      case False
      define np where "np = d_amount_paid d0 + amount"
      define ns where "ns = (if np \<ge> d_amount d0 then Rembourse else Actif)"
      define s' where "s' = s\<lparr>repayments := repayments s @
                          [\<lparr>r_id = seq_repayments s + 1, r_debt_id = i,
                            r_amount = amount, r_date = dt,
                            r_notes = ''Remboursement partiel''\<rparr>],
                        seq_repayments := seq_repayments s + 1,
                        debts := update_debt np ns i (debts s)\<rparr>"
      have eq: "snd (apply_repayment i a dt s) = s'"
        using False found Some
        by (simp add: apply_repayment_def show_repayment_dialog_def repayment_save_def Let_def
            s'_def np_def ns_def)
      have rep: "\<And>j. repaid j s' = repaid j s + (if j = i then amount else 0)"
        by (simp add: repaid_def s'_def)
      have mem: "\<And>d. d \<in> set (debts s') \<Longrightarrow>
          (d_id d \<noteq> i \<and> d \<in> set (debts s)) \<or> d = d0\<lparr>d_amount_paid := np, d_status := ns\<rparr>"
        using uniq by (auto simp: s'_def update_debt_def)
      have c1: "distinct (map d_id (debts s'))"
        using assms by (simp add: s'_def map_id_update_debt consistent_def)
      have c2: "\<forall>d \<in> set (debts s'). d_id d \<le> seq_debts s'"
        using assms by (auto simp: s'_def update_debt_def consistent_def)
      have c3: "\<forall>r \<in> set (repayments s'). r_debt_id r \<le> seq_debts s'"
        using assms d0 by (auto simp: s'_def consistent_def)
      have c4: "\<forall>d \<in> set (debts s'). repaid (d_id d) s' = d_amount_paid d"
      proof
        fix d assume "d \<in> set (debts s')"
        from mem[OF this] show "repaid (d_id d) s' = d_amount_paid d"
          using assms d0 by (auto simp: rep consistent_def np_def)
      qed
      have c5: "\<forall>d \<in> set (debts s'). d_status d \<noteq> En_retard"
      proof
        fix d assume "d \<in> set (debts s')"
        from mem[OF this] show "d_status d \<noteq> En_retard"
          using assms by (auto simp: consistent_def ns_def split: if_splits)
      qed
      have c6: "\<forall>d \<in> set (debts s'). 0 < d_amount d \<longrightarrow>
         (d_status d = Rembourse \<longleftrightarrow> d_amount d \<le> d_amount_paid d)"
      proof
        fix d assume "d \<in> set (debts s')"
        from mem[OF this] show "0 < d_amount d \<longrightarrow>
         (d_status d = Rembourse \<longleftrightarrow> d_amount d \<le> d_amount_paid d)"
          using assms d0 by (auto simp: consistent_def ns_def np_def split: if_splits)
      qed
      from c1 c2 c3 c4 c5 c6 show ?thesis unfolding eq consistent_def by blast
    qed
  qed
qed

lemma consistent_perform: "consistent s \<Longrightarrow> consistent (perform rq s)"
  by (cases rq)
     (simp_all add: consistent_add_transaction consistent_delete consistent_add_debt
        consistent_add_contact consistent_repay)

lemma reachable_consistent: "reachable s \<Longrightarrow> consistent s"
  by (induction rule: reachable.induct) (simp_all add: consistent_init consistent_perform)

lemma ali_owed_eq:
  "ali_owed =
     \<lparr>transactions = [],
      debts = [\<lparr>d_id = 1, d_type = Dette, d_person_name = ''Ali'', d_phone = [],
                d_amount = 100, d_amount_paid = 0, d_interest_rate = 0, d_start_date = 0,
                d_due_date = Some 30, d_status = Actif, d_description = []\<rparr>],
      repayments = [], contacts = [],
      seq_transactions = 0, seq_debts = 1, seq_repayments = 0, seq_contacts = 0\<rparr>"
  by (simp add: ali_owed_def add_debt_save_def init_database_def Let_def)

lemma reachable_ali_owed: "reachable ali_owed"
  unfolding ali_owed_def by (rule reachable.step) (rule reachable.start)


subsection \<open>Repayments\<close>








subsection \<open>Status\<close>

text \<open>
  For the debts entered with a positive principal the status follows the amount paid in
  every reachable store, and no stored status is ever \<^verbatim>\<open>en_retard\<close>.
\<close>

lemma status_of_positive_debts:
  assumes "reachable s" and "d \<in> set (debts s)" and "0 < d_amount d"
  shows "d_status d = (if d_amount d \<le> d_amount_paid d then Rembourse else Actif)"
proof -
  from reachable_consistent [OF assms(1)] assms(2,3)
  have "d_status d = Rembourse \<longleftrightarrow> d_amount d \<le> d_amount_paid d" and "d_status d \<noteq> En_retard"
    by (auto simp: consistent_def)
  then show ?thesis by (cases "d_status d") auto
qed

lemma zero_debt_eq:
  "zero_debt =
     \<lparr>transactions = [],
      debts = [\<lparr>d_id = 1, d_type = Dette, d_person_name = ''Ali'', d_phone = [],
                d_amount = 0, d_amount_paid = 0, d_interest_rate = 0, d_start_date = 0,
                d_due_date = Some 30, d_status = Actif, d_description = []\<rparr>],
      repayments = [], contacts = [],
      seq_transactions = 0, seq_debts = 1, seq_repayments = 0, seq_contacts = 0\<rparr>"
  by (simp add: zero_debt_def add_debt_save_def init_database_def Let_def)

text \<open>
  C4. The store obtained by entering a debt of principal 0 is reachable, and its debt
  is active although its amount paid has reached its principal.
\<close>

theorem active_debt_with_principal_reached:
  "reachable zero_debt \<and>
   map d_status (debts zero_debt) = [Actif] \<and>
   map d_amount (debts zero_debt) = [0] \<and>
   map d_amount_paid (debts zero_debt) = [0]"
proof -
  have "reachable zero_debt"
    unfolding zero_debt_def by (rule reachable.step) (rule reachable.start)
  then show ?thesis by (simp add: zero_debt_eq)
qed

subsection \<open>Opening an obligation\<close>

text \<open>
  C6. A debt entered with principal \<open>-5\<close> and interest rate \<open>-1\<close> is accepted and stored
  as entered, with amount paid 0 and status \<^verbatim>\<open>actif\<close>; only text that is not a number is
  rejected.
\<close>

theorem negative_debt_accepted:
  "add_debt_save Dette ''Ali'' [] (Some (- 5)) (Some (- 1)) 0 30 [] init_database =
     (Ok, \<lparr>transactions = [],
           debts = [\<lparr>d_id = 1, d_type = Dette, d_person_name = ''Ali'', d_phone = [],
                     d_amount = - 5, d_amount_paid = 0, d_interest_rate = - 1, d_start_date = 0,
                     d_due_date = Some 30, d_status = Actif, d_description = []\<rparr>],
           repayments = [], contacts = [],
           seq_transactions = 0, seq_debts = 1, seq_repayments = 0, seq_contacts = 0\<rparr>)"
  by (simp add: add_debt_save_def init_database_def Let_def)

text \<open>
  C10. When a debt or loan is entered with a phone number that is not empty and is the
  phone of no stored contact, the same request appends one contact, of type
  \<^verbatim>\<open>debiteur\<close> for a loan and \<^verbatim>\<open>creancier\<close> for a debt: the contacts table changes.
\<close>

theorem new_phone_adds_contact:
  assumes "phone_var \<noteq> []" and "\<forall>c \<in> set (contacts s). c_phone c \<noteq> phone_var"
  shows "fst (add_debt_save ty name_var phone_var (Some a) (Some r) start due desc s) = Ok \<and>
         contacts (snd (add_debt_save ty name_var phone_var (Some a) (Some r) start due desc s)) =
           contacts s @
             [\<lparr>c_id = seq_contacts s + 1, c_name = name_var, c_phone = phone_var, c_email = None,
               c_type = (if ty = Pret then ''debiteur'' else ''creancier''),
               c_notes = ajoute_via ty\<rparr>] \<and>
         contacts (snd (add_debt_save ty name_var phone_var (Some a) (Some r) start due desc s)) \<noteq>
           contacts s"
proof -
  from assms(2) have "find (\<lambda>c. c_phone c = phone_var) (contacts s) = None"
    by (simp add: find_None_iff)
  with assms(1) show ?thesis
    by (simp add: add_debt_save_def Let_def)
qed

theorem new_phone_adds_contact_witness:
  "map c_type (contacts (snd (add_debt_save Pret ''Bea'' ''0612'' (Some 50) (Some 0) 0 9 []
       init_database))) = [''debiteur''] \<and>
   map c_type (contacts (snd (add_debt_save Dette ''Ali'' ''0611'' (Some 50) (Some 0) 0 9 []
       init_database))) = [''creancier'']"
proof -
  have n: "''0612'' \<noteq> []" "''0611'' \<noteq> []" by simp_all
  have e: "\<forall>c \<in> set (contacts init_database). c_phone c \<noteq> ''0612''"
          "\<forall>c \<in> set (contacts init_database). c_phone c \<noteq> ''0611''"
    by (simp_all add: init_database_def)
  have c: "contacts init_database = []" by (simp add: init_database_def)
  from new_phone_adds_contact [OF n(1) e(1), of Pret "''Bea''" 50 0 0 9 "[]"]
  have a: "map c_type (contacts (snd (add_debt_save Pret ''Bea'' ''0612'' (Some 50) (Some 0) 0
       9 [] init_database))) = [''debiteur'']"
    by (simp add: c)
  from new_phone_adds_contact [OF n(2) e(2), of Dette "''Ali''" 50 0 0 9 "[]"]
  have b: "map c_type (contacts (snd (add_debt_save Dette ''Ali'' ''0611'' (Some 50) (Some 0) 0
       9 [] init_database))) = [''creancier'']"
    by (simp add: c)
  from a b show ?thesis by blast
qed

subsection \<open>Alerts\<close>

text \<open>
  C8. \<^verbatim>\<open>load_alerts\<close> reports the late debts exactly when there is at least one active
  debt whose due date is before today, and the alert carries their number. It hands the
  store back as it received it, so a late debt is still stored as \<^verbatim>\<open>actif\<close>; and no
  request ever stores the status \<^verbatim>\<open>en_retard\<close>.
\<close>

theorem load_alerts_reads_only:
  "snd (load_alerts current_month today s) = s \<and>
   (Dettes_en_retard n \<in> set (fst (load_alerts current_month today s)) \<longleftrightarrow>
      n = length (filter (late today) (debts s)) \<and> 0 < n) \<and>
   (\<forall>d \<in> set (debts (snd (load_alerts current_month today s))).
      late today d \<longrightarrow> d_status d = Actif) \<and>
   (reachable s \<longrightarrow> (\<forall>d \<in> set (debts s). d_status d \<noteq> En_retard))"
proof (intro conjI)
  show "snd (load_alerts current_month today s) = s"
    by (simp add: load_alerts_def Let_def)
  show "Dettes_en_retard n \<in> set (fst (load_alerts current_month today s)) \<longleftrightarrow>
      n = length (filter (late today) (debts s)) \<and> 0 < n"
    by (auto simp: load_alerts_def Let_def)
  show "\<forall>d \<in> set (debts (snd (load_alerts current_month today s))).
      late today d \<longrightarrow> d_status d = Actif"
    by (simp add: late_def)
  show "reachable s \<longrightarrow> (\<forall>d \<in> set (debts s). d_status d \<noteq> En_retard)"
    using reachable_consistent by (auto simp: consistent_def)
qed

theorem load_alerts_reads_only_witness:
  "fst (load_alerts (\<lambda>d. True) 31 ali_owed) = [Dettes_en_retard 1] \<and>
   map d_status (debts (snd (load_alerts (\<lambda>d. True) 31 ali_owed))) = [Actif] \<and>
   fst (load_alerts (\<lambda>d. True) 30 ali_owed) = []"
proof -
  note t = load_alerts_reads_only [of "\<lambda>d. True" 31 ali_owed 1]
  have l: "length (filter (late 31) (debts ali_owed)) = 1"
    by (simp add: ali_owed_eq late_def)
  from t reachable_ali_owed have "\<forall>d \<in> set (debts ali_owed). d_status d \<noteq> En_retard"
    by blast
  from t have "snd (load_alerts (\<lambda>d. True) 31 ali_owed) = ali_owed" by blast
  then have b: "map d_status (debts (snd (load_alerts (\<lambda>d. True) 31 ali_owed))) = [Actif]"
    by (simp add: ali_owed_eq)
  have a: "fst (load_alerts (\<lambda>d. True) 31 ali_owed) = [Dettes_en_retard 1]"
    by (simp add: load_alerts_def Let_def ali_owed_eq late_def calculate_stats_def)
  have c: "fst (load_alerts (\<lambda>d. True) 30 ali_owed) = []"
    by (simp add: load_alerts_def Let_def ali_owed_eq late_def calculate_stats_def)
  from a b c show ?thesis by blast
qed

subsection \<open>Listings\<close>






subsection \<open>Deadlines\<close>

lemma fst_deadline_row: "fst (deadline_row today d) = d"
  by (simp add: deadline_row_def Let_def)

lemma deadline_rows_debts:
  "map fst (load_all_deadlines today s) =
     sort_key d_due_date (filter (upcoming today) (debts s))"
  by (simp add: load_all_deadlines_def comp_def fst_deadline_row)

lemma deadline_row_upcoming:
  assumes "upcoming today d" and "deadline_row today d = (d', n, t)"
  shows "d' = d \<and> d_status d = Actif \<and> d_due_date d = Some (today + n) \<and> 0 \<le> n \<and>
         t = (if n \<le> 3 then Urgent else if n \<le> 7 then Warning else Normal)"
proof (cases "d_due_date d")
  case None
  with assms(1) show ?thesis by (simp add: upcoming_def)
next
  case (Some due)
  with assms(1) have "today \<le> due" and "d_status d = Actif"
    by (simp_all add: upcoming_def)
  with Some assms(2) show ?thesis
    by (auto simp: deadline_row_def days_left_def Let_def)
qed

text \<open>
  C7. \<^verbatim>\<open>load_all_deadlines\<close> returns exactly the active debts whose due date is today
  or later, in ascending order of due date, each with the number of days from today to
  its due date and the tag \<^verbatim>\<open>urgent\<close> for at most 3 days, \<^verbatim>\<open>warning\<close> for more
  than 3 and at most 7, \<^verbatim>\<open>normal\<close> beyond; a debt due before today is not in the result.
\<close>

theorem load_all_deadlines_classifies:
  "mset (map fst (load_all_deadlines today s)) =
     filter_mset (\<lambda>d. (case d_due_date d of None \<Rightarrow> False | Some due \<Rightarrow> today \<le> due) \<and>
                      d_status d = Actif) (mset (debts s)) \<and>
   sorted (map (d_due_date \<circ> fst) (load_all_deadlines today s)) \<and>
   (\<forall>(d, n, t) \<in> set (load_all_deadlines today s).
      d_due_date d = Some (today + n) \<and>
      t = (if n \<le> 3 then Urgent else if n \<le> 7 then Warning else Normal)) \<and>
   (\<forall>d \<in> set (debts s).
      (case d_due_date d of None \<Rightarrow> False | Some due \<Rightarrow> due < today) \<longrightarrow>
      d \<notin> fst ` set (load_all_deadlines today s))"
proof (intro conjI)
  have u: "upcoming today = (\<lambda>d. (case d_due_date d of None \<Rightarrow> False
             | Some due \<Rightarrow> today \<le> due) \<and> d_status d = Actif)"
    by (rule ext) (simp add: upcoming_def)
  show "mset (map fst (load_all_deadlines today s)) =
     filter_mset (\<lambda>d. (case d_due_date d of None \<Rightarrow> False | Some due \<Rightarrow> today \<le> due) \<and>
                      d_status d = Actif) (mset (debts s))"
    unfolding deadline_rows_debts u by simp
  have "map (d_due_date \<circ> fst) (load_all_deadlines today s) =
          map d_due_date (map fst (load_all_deadlines today s))"
    by simp
  also have "sorted \<dots>"
    unfolding deadline_rows_debts by simp
  finally show "sorted (map (d_due_date \<circ> fst) (load_all_deadlines today s))" .
  show "\<forall>(d, n, t) \<in> set (load_all_deadlines today s).
      d_due_date d = Some (today + n) \<and>
      t = (if n \<le> 3 then Urgent else if n \<le> 7 then Warning else Normal)"
  proof (clarify, intro conjI)
    fix d n t assume "(d, n, t) \<in> set (load_all_deadlines today s)"
    then obtain d0 where "upcoming today d0" and "deadline_row today d0 = (d, n, t)"
      by (auto simp: load_all_deadlines_def)
    from deadline_row_upcoming [OF this]
    show "d_due_date d = Some (today + n)"
      and "t = (if n \<le> 3 then Urgent else if n \<le> 7 then Warning else Normal)"
      by simp_all
  qed
  have "set (map fst (load_all_deadlines today s)) = {d \<in> set (debts s). upcoming today d}"
    unfolding deadline_rows_debts by simp
  then have "fst ` set (load_all_deadlines today s) = {d \<in> set (debts s). upcoming today d}"
    by simp
  then show "\<forall>d \<in> set (debts s).
      (case d_due_date d of None \<Rightarrow> False | Some due \<Rightarrow> due < today) \<longrightarrow>
      d \<notin> fst ` set (load_all_deadlines today s)"
    by (auto simp: upcoming_def split: option.splits)
qed

theorem load_all_deadlines_classifies_witness:
  "map snd (load_all_deadlines 28 ali_owed) = [(2, Urgent)] \<and>
   map snd (load_all_deadlines 25 ali_owed) = [(5, Warning)] \<and>
   map snd (load_all_deadlines 20 ali_owed) = [(10, Normal)] \<and>
   hd (debts ali_owed) \<notin> fst ` set (load_all_deadlines 31 ali_owed)"
proof -
  have a: "map snd (load_all_deadlines 28 ali_owed) = [(2, Urgent)]"
    by (simp add: load_all_deadlines_def ali_owed_eq upcoming_def deadline_row_def
        days_left_def Let_def)
  have b: "map snd (load_all_deadlines 25 ali_owed) = [(5, Warning)]"
    by (simp add: load_all_deadlines_def ali_owed_eq upcoming_def deadline_row_def
        days_left_def Let_def)
  have c: "map snd (load_all_deadlines 20 ali_owed) = [(10, Normal)]"
    by (simp add: load_all_deadlines_def ali_owed_eq upcoming_def deadline_row_def
        days_left_def Let_def)
  have m: "hd (debts ali_owed) \<in> set (debts ali_owed)"
    by (simp add: ali_owed_eq)
  have l: "(case d_due_date (hd (debts ali_owed)) of None \<Rightarrow> False | Some due \<Rightarrow> due < 31)"
    by (simp add: ali_owed_eq)
  have q: "\<forall>d \<in> set (debts ali_owed).
      (case d_due_date d of None \<Rightarrow> False | Some due \<Rightarrow> due < 31) \<longrightarrow>
      d \<notin> fst ` set (load_all_deadlines 31 ali_owed)"
    using load_all_deadlines_classifies [of 31 ali_owed] by (elim conjE)
  from bspec [OF q m] l
  have n: "hd (debts ali_owed) \<notin> fst ` set (load_all_deadlines 31 ali_owed)"
    by (rule mp)
  from a b c n show ?thesis by (intro conjI)
qed

end
